theory Spec2Isabelle
  imports Complex_Main
begin

section \<open>Buy versus rent simulator: the computation of app.py\<close>

text \<open>
  The script app.py reads its parameters from input widgets, computes the level monthly
  payment (EMI), builds the amortization schedule once, and defines \<open>tax_saving\<close> and
  \<open>compute_npv\<close>, which close over the module-level variables. It then calls
  \<open>compute_npv\<close> for three scenarios, for a growth slider, and in a sweep over the
  holding period that reassigns the module-level variable \<open>exit_year\<close>.

  Numbers: Python's floats are idealised as \<open>real\<close>; rounding and overflow are outside
  the model. The pandas sums are \<open>numpy.float64\<close> values, which differ from Python floats
  in one respect that the script can reach: divided by zero they do not raise but give
  \<open>inf\<close>, \<open>-inf\<close> or \<open>nan\<close>. The cash-flow entries therefore carry their kind
  (\<open>pynum\<close>), and a discounted sum is a \<open>real option\<close>, \<open>None\<close> standing for a
  non-finite float. The integer-valued inputs (price, tenure, rent, the growth rates with
  integer defaults) are embedded in \<open>real\<close>, except the two that are used as exponents
  or loop bounds: \<open>tenure\<close> is an \<open>int\<close> (a number input, any sign) and \<open>exit_year\<close>
  is a \<open>nat\<close> (a slider over 3..25).

  Exceptions are values: every function that can raise returns \<open>error + 'a\<close>.

  Module-level names that the script rebinds without effect on what is modelled: the
  scenario loop, the slider call and the sweep assign the second result of \<open>compute_npv\<close>
  to \<open>r\<close>, the monthly rate, but nothing reads \<open>r\<close> after the schedule is built;
  \<open>compute_npv\<close> assigns a local \<open>balance\<close> that it never reads. The one rebinding that
  matters is \<open>exit_year\<close> in the sweep, which \<open>sweep_loop\<close> models by a record update.
\<close>

subsection \<open>Inputs\<close>

record params =
  price :: real
  down_pct :: real
  loan_rate :: real
  tenure :: int
  rent0 :: real
  rent_growth :: real
  house_growth :: real
  inv_return :: real
  inflation :: real
  disc :: real
  exit_year :: nat
  buy_commission :: real
  sell_commission :: real
  maintenance_pct :: real
  tax_rate :: real
  interest_deduction :: real
  principal_deduction :: real

datatype error = ZeroDivisionError | IndexError

subsection \<open>EMI (lines 46 to 49)\<close>

text \<open>
  The module-level variables \<open>r\<close> and \<open>n\<close> of the script are the constants \<open>rate_r\<close> and
  \<open>months_n\<close> here (a one-letter constant would capture the variables of every later
  statement).
\<close>

definition loan_amt :: "params \<Rightarrow> real" where
  "loan_amt ps = price ps * (1 - down_pct ps)"

definition rate_r :: "params \<Rightarrow> real" where
  "rate_r ps = loan_rate ps / 100 / 12"

definition months_n :: "params \<Rightarrow> int" where
  "months_n ps = tenure ps * 12"

text \<open>
  Python's \<open>x ** k\<close> for a float \<open>x\<close> and an integer \<open>k\<close>: a negative exponent is the
  reciprocal power, and a zero base with a negative exponent raises ZeroDivisionError.
\<close>

definition py_pow :: "real \<Rightarrow> int \<Rightarrow> error + real" where
  "py_pow x k =
     (if 0 \<le> k then Inr (x ^ nat k)
      else if x = 0 then Inl ZeroDivisionError
      else Inr (1 / x ^ nat (- k)))"

text \<open>Python's float division: a zero divisor raises ZeroDivisionError.\<close>

definition py_div :: "real \<Rightarrow> real \<Rightarrow> error + real" where
  "py_div a b = (if b = 0 then Inl ZeroDivisionError else Inr (a / b))"

definition emi :: "params \<Rightarrow> error + real" where
  "emi ps =
     (case py_pow (1 + rate_r ps) (months_n ps) of
        Inl e \<Rightarrow> Inl e
      | Inr pw \<Rightarrow> py_div (loan_amt ps * rate_r ps * pw) (pw - 1))"

subsection \<open>Amortization and equity buildup (lines 57 to 69)\<close>

record row =
  Year :: real
  Interest :: real
  Principal :: real
  Balance :: real
  Equity :: real

text \<open>
  The loop over \<open>m\<close> carries \<open>balance\<close>; the arguments \<open>pr\<close>, \<open>r\<close> and \<open>e\<close> are the
  module-level \<open>price\<close>, \<open>r\<close> and \<open>emi\<close> it reads.
\<close>

fun schedule_loop :: "real \<Rightarrow> real \<Rightarrow> real \<Rightarrow> real \<Rightarrow> nat list \<Rightarrow> row list" where
  "schedule_loop pr r e balance [] = []"
| "schedule_loop pr r e balance (m # ms) =
     (let interest = balance * r;
          principal = e - interest;
          balance' = balance - principal;
          equity = pr - balance'
      in \<lparr>Year = real m / 12, Interest = interest, Principal = principal,
           Balance = balance', Equity = equity\<rparr>
         # schedule_loop pr r e balance' ms)"

text \<open>\<open>schedule ps e\<close> is the list built with the EMI value \<open>e\<close>, for \<open>m\<close> in
  \<open>range(1, exit_year*12+1)\<close>; the data frame \<open>sched\<close> holds the same rows.\<close>

definition schedule :: "params \<Rightarrow> real \<Rightarrow> row list" where
  "schedule ps e =
     schedule_loop (price ps) (rate_r ps) e (loan_amt ps) [1 ..< exit_year ps * 12 + 1]"

subsection \<open>Tax benefit (lines 75 to 78)\<close>

text \<open>The second argument, \<open>principal\<close> in the script, is \<open>princ\<close> here
  (\<open>principal\<close> is a constant of the library).\<close>

definition tax_saving :: "params \<Rightarrow> real \<Rightarrow> real \<Rightarrow> real" where
  "tax_saving ps interest princ =
     (let interest_claim = min interest (interest_deduction ps);
          principal_claim = min princ (principal_deduction ps)
      in (interest_claim + principal_claim) * tax_rate ps / 100)"

text \<open>
  The kind of the number that \<open>tax_saving\<close> returns. The built-in \<open>min(a, b)\<close> returns
  \<open>b\<close> only when \<open>b < a\<close>, and the caps are integers, so a claim is a \<open>numpy.float64\<close>
  when it is the pandas sum and an integer when it is the cap; the result is a
  \<open>numpy.float64\<close> as soon as one claim is (a \<open>numpy.float64\<close> combined with an integer or
  a float stays one), and a Python float when both claims are the caps. \<open>sums_np\<close> says
  whether the two sums are \<open>numpy.float64\<close>.
\<close>

definition tax_saving_numpy :: "params \<Rightarrow> bool \<Rightarrow> real \<Rightarrow> real \<Rightarrow> bool" where
  "tax_saving_numpy ps sums_np interest princ =
     (sums_np \<and> (\<not> interest_deduction ps < interest \<or> \<not> principal_deduction ps < princ))"

subsection \<open>Numbers of two kinds\<close>

text \<open>A Python float or a \<open>numpy.float64\<close>, with its value.\<close>

datatype pynum = PyFloat real | NpFloat real

fun num_val :: "pynum \<Rightarrow> real" where
  "num_val (PyFloat x) = x"
| "num_val (NpFloat x) = x"

text \<open>\<open>x + v\<close> for a Python float \<open>v\<close>: a \<open>numpy.float64\<close> stays one.\<close>

fun add_float :: "pynum \<Rightarrow> real \<Rightarrow> pynum" where
  "add_float (PyFloat x) v = PyFloat (x + v)"
| "add_float (NpFloat x) v = NpFloat (x + v)"

text \<open>
  \<open>x / d\<close> for a Python float \<open>d\<close>. On a zero divisor a Python float raises
  ZeroDivisionError; a \<open>numpy.float64\<close> warns and returns \<open>inf\<close>, \<open>-inf\<close> or \<open>nan\<close>.
\<close>

fun num_div :: "pynum \<Rightarrow> real \<Rightarrow> error + real option" where
  "num_div (PyFloat x) d = (if d = 0 then Inl ZeroDivisionError else Inr (Some (x / d)))"
| "num_div (NpFloat x) d = (if d = 0 then Inr None else Inr (Some (x / d)))"

text \<open>Addition of quotients: a sum with a non-finite term is non-finite.\<close>

fun num_add :: "real option \<Rightarrow> real option \<Rightarrow> real option" where
  "num_add (Some a) (Some b) = Some (a + b)"
| "num_add _ _ = None"

subsection \<open>Cash flows and NPV (lines 84 to 124)\<close>

text \<open>The pandas test \<open>Series.between(left, right)\<close> includes both ends by default.\<close>

definition between :: "real \<Rightarrow> real \<Rightarrow> real \<Rightarrow> bool" where
  "between x left right = (left \<le> x \<and> x \<le> right)"

definition year_rows :: "row list \<Rightarrow> nat \<Rightarrow> row list" where
  "year_rows sched y = filter (\<lambda>rw. between (Year rw) (real y - 1) (real y)) sched"

definition interest_year :: "row list \<Rightarrow> nat \<Rightarrow> real" where
  "interest_year sched y = sum_list (map Interest (year_rows sched y))"

definition principal_year :: "row list \<Rightarrow> nat \<Rightarrow> real" where
  "principal_year sched y = sum_list (map Principal (year_rows sched y))"

text \<open>
  The loop over \<open>y\<close> appends one entry to \<open>cf_rent\<close> and one to \<open>cf_buy\<close>. It reads the
  module-level \<open>sched\<close> and \<open>emi\<close>, here the arguments \<open>sched\<close> and \<open>e\<close>. The rent entry
  is a Python float. The buy entry has the kind of \<open>tax\<close>: the sums over a data frame with
  rows are \<open>numpy.float64\<close> (also over an empty selection); a data frame built from no rows
  has columns of objects, whose sums are the integer 0.
\<close>

fun cf_loop ::
  "params \<Rightarrow> row list \<Rightarrow> real \<Rightarrow> real \<Rightarrow> nat list \<Rightarrow> pynum list \<times> pynum list
     \<Rightarrow> pynum list \<times> pynum list" where
  "cf_loop ps sched e rg [] (cf_buy, cf_rent) = (cf_buy, cf_rent)"
| "cf_loop ps sched e rg (y # ys) (cf_buy, cf_rent) =
     (let rent = rent0 ps * (1 + rg / 100) ^ y;
          cf_rent' = cf_rent @ [PyFloat (- (rent * 12))];
          tax = tax_saving ps (interest_year sched y) (principal_year sched y);
          maintenance = price ps * (maintenance_pct ps / 100);
          cf_buy' = cf_buy @
            [(if tax_saving_numpy ps (sched \<noteq> []) (interest_year sched y) (principal_year sched y)
              then NpFloat else PyFloat) (- (e * 12 + maintenance) + tax)]
      in cf_loop ps sched e rg ys (cf_buy', cf_rent'))"

text \<open>\<open>cfs[-1] += v\<close> for a Python float \<open>v\<close>: IndexError on an empty list.\<close>

definition add_last :: "pynum list \<Rightarrow> real \<Rightarrow> error + pynum list" where
  "add_last cfs v =
     (if cfs = [] then Inl IndexError else Inr (butlast cfs @ [add_float (last cfs) v]))"

text \<open>
  \<open>npv\<close>: the generator is summed from the left, starting at 0; the term of index \<open>i\<close>
  divides by \<open>(1 + rate/100) ** i\<close>, a Python float. A term that raises ends the sum; a
  non-finite term does not, and the entries after it are still divided.
\<close>

fun npv_sum :: "real \<Rightarrow> nat \<Rightarrow> real option \<Rightarrow> pynum list \<Rightarrow> error + real option" where
  "npv_sum rate i acc [] = Inr acc"
| "npv_sum rate i acc (cf # cfs) =
     (case num_div cf ((1 + rate / 100) ^ i) of
        Inl e \<Rightarrow> Inl e
      | Inr t \<Rightarrow> npv_sum rate (i + 1) (num_add acc t) cfs)"

definition npv :: "real \<Rightarrow> pynum list \<Rightarrow> error + real option" where
  "npv rate cfs = npv_sum rate 0 (Some 0) cfs"

text \<open>
  The two cash-flow lists of \<open>compute_npv\<close>, after the terminal adjustments. The year-0
  entry of the buy path is a Python float.
\<close>

definition cashflows ::
  "params \<Rightarrow> row list \<Rightarrow> real \<Rightarrow> real \<Rightarrow> real \<Rightarrow> error + (pynum list \<times> pynum list)" where
  "cashflows ps sched e hg rg =
     (let downpayment = price ps * down_pct ps;
          buy_comm = price ps * buy_commission ps / 100;
          (cf_buy, cf_rent) =
             cf_loop ps sched e rg [1 ..< exit_year ps + 1]
               ([PyFloat (- downpayment - buy_comm)], []);
          future_price = price ps * (1 + hg / 100) ^ exit_year ps;
          resale = future_price * (1 - sell_commission ps / 100)
      in case add_last cf_buy resale of
           Inl err \<Rightarrow> Inl err
         | Inr cf_buy' \<Rightarrow>
             (let invest = downpayment * (1 + inv_return ps / 100) ^ exit_year ps
              in case add_last cf_rent invest of
                   Inl err \<Rightarrow> Inl err
                 | Inr cf_rent' \<Rightarrow> Inr (cf_buy', cf_rent')))"

definition real_disc :: "params \<Rightarrow> error + real" where
  "real_disc ps =
     (case py_div (1 + disc ps / 100) (1 + inflation ps / 100) of
        Inl err \<Rightarrow> Inl err
      | Inr q \<Rightarrow> Inr ((q - 1) * 100))"

definition compute_npv ::
  "params \<Rightarrow> row list \<Rightarrow> real \<Rightarrow> real \<Rightarrow> real \<Rightarrow> error + (real option \<times> real option)" where
  "compute_npv ps sched e hg rg =
     (case cashflows ps sched e hg rg of
        Inl err \<Rightarrow> Inl err
      | Inr (cf_buy, cf_rent) \<Rightarrow>
          (case real_disc ps of
             Inl err \<Rightarrow> Inl err
           | Inr rd \<Rightarrow>
               (case npv rd cf_buy of
                  Inl err \<Rightarrow> Inl err
                | Inr b \<Rightarrow>
                    (case npv rd cf_rent of
                       Inl err \<Rightarrow> Inl err
                     | Inr rn \<Rightarrow> Inr (b, rn)))))"

subsection \<open>Holding-period sweep (lines 178 to 186)\<close>

text \<open>
  The sweep assigns \<open>exit_year = y\<close> and calls \<open>compute_npv\<close>; \<open>sched\<close> and \<open>emi\<close> are
  the module-level values computed before the sweep, from the slider's \<open>exit_year\<close>.
\<close>

fun sweep_loop ::
  "params \<Rightarrow> row list \<Rightarrow> real \<Rightarrow> nat list \<Rightarrow> real option list \<times> real option list
     \<Rightarrow> error + (real option list \<times> real option list)" where
  "sweep_loop ps sched e [] (buy_vals, rent_vals) = Inr (buy_vals, rent_vals)"
| "sweep_loop ps sched e (y # ys) (buy_vals, rent_vals) =
     (case compute_npv (ps\<lparr>exit_year := y\<rparr>) sched e (house_growth ps) (rent_growth ps) of
        Inl err \<Rightarrow> Inl err
      | Inr (b, rn) \<Rightarrow> sweep_loop ps sched e ys (buy_vals @ [b], rent_vals @ [rn]))"

definition sweep :: "params \<Rightarrow> error + (real option list \<times> real option list)" where
  "sweep ps =
     (case emi ps of
        Inl err \<Rightarrow> Inl err
      | Inr e \<Rightarrow> sweep_loop ps (schedule ps e) e [3 ..< 26] ([], []))"

text \<open>
  The pipeline as the specification words it: the schedule is recomputed to the horizon
  of the parameter set, then the cash flows and the two NPVs are computed from it.
\<close>

definition full_pipeline ::
  "params \<Rightarrow> real \<Rightarrow> real \<Rightarrow> error + (real option \<times> real option)" where
  "full_pipeline ps hg rg =
     (case emi ps of
        Inl err \<Rightarrow> Inl err
      | Inr e \<Rightarrow> compute_npv ps (schedule ps e) e hg rg)"

subsection \<open>Concrete inputs\<close>

text \<open>The default values of the script's input widgets.\<close>

definition default_params :: params where
  "default_params =
     \<lparr>price = 8000000, down_pct = 2 / 10, loan_rate = 85 / 10, tenure = 20, rent0 = 25000,
      rent_growth = 5, house_growth = 5, inv_return = 10, inflation = 5, disc = 8,
      exit_year = 10, buy_commission = 1, sell_commission = 1, maintenance_pct = 1,
      tax_rate = 30, interest_deduction = 200000, principal_deduction = 150000\<rparr>"


section \<open>Properties\<close>

subsection \<open>The schedule, row by row\<close>

lemma length_schedule_loop: "length (schedule_loop pr r e b ms) = length ms"
  by (induction ms arbitrary: b) (simp_all add: Let_def)

lemma length_schedule: "length (schedule ps e) = exit_year ps * 12"
  by (simp add: schedule_def length_schedule_loop)

lemma schedule_loop_Year:
  "i < length ms \<Longrightarrow> Year (schedule_loop pr r e b ms ! i) = real (ms ! i) / 12"
proof (induction ms arbitrary: b i)
  case Nil
  then show ?case by simp
next
  case (Cons m ms)
  then show ?case by (cases i) (simp_all add: Let_def)
qed

lemma schedule_loop_row:
  "i < length ms \<Longrightarrow>
   Interest (schedule_loop pr r e b ms ! i) + Principal (schedule_loop pr r e b ms ! i) = e \<and>
   Interest (schedule_loop pr r e b ms ! i)
     = (if i = 0 then b else Balance (schedule_loop pr r e b ms ! (i - 1))) * r \<and>
   Balance (schedule_loop pr r e b ms ! i)
     = (if i = 0 then b else Balance (schedule_loop pr r e b ms ! (i - 1)))
         - Principal (schedule_loop pr r e b ms ! i) \<and>
   Equity (schedule_loop pr r e b ms ! i) + Balance (schedule_loop pr r e b ms ! i) = pr"
proof (induction ms arbitrary: b i)
  case Nil
  then show ?case by simp
next
  case (Cons m ms)
  show ?case
  proof (cases i)
    case 0
    then show ?thesis by (simp add: Let_def)
  next
    case (Suc j)
    with Cons.prems have j: "j < length ms" by simp
    from Cons.IH [OF j, of "b - (e - b * r)"] Suc show ?thesis
      by (cases j) (simp_all add: Let_def)
  qed
qed

lemma schedule_loop_principal_nonneg:
  "i < length ms \<Longrightarrow> 0 \<le> r \<Longrightarrow> b * r \<le> e \<Longrightarrow> 0 \<le> Principal (schedule_loop pr r e b ms ! i)"
proof (induction ms arbitrary: b i)
  case Nil
  then show ?case by simp
next
  case (Cons m ms)
  show ?case
  proof (cases i)
    case 0
    with Cons.prems show ?thesis by (simp add: Let_def)
  next
    case (Suc j)
    with Cons.prems have j: "j < length ms" by simp
    have "(b - (e - b * r)) * r = b * r - (e - b * r) * r" by (simp add: algebra_simps)
    also have "\<dots> \<le> b * r" using Cons.prems by (simp add: mult_nonneg_nonneg)
    also have "\<dots> \<le> e" by fact
    finally have "(b - (e - b * r)) * r \<le> e" .
    from Cons.IH [OF j \<open>0 \<le> r\<close> this] Suc show ?thesis by (simp add: Let_def)
  qed
qed

lemma emi_value:
  assumes "0 < rate_r ps" "0 < months_n ps"
  shows "emi ps = Inr (loan_amt ps * rate_r ps * (1 + rate_r ps) ^ nat (months_n ps)
                        / ((1 + rate_r ps) ^ nat (months_n ps) - 1))"
proof -
  have "1 < (1 + rate_r ps) ^ nat (months_n ps)"
    using assms by (intro one_less_power) simp_all
  then have "(1 + rate_r ps) ^ nat (months_n ps) \<noteq> 1" by simp
  then show ?thesis using assms by (simp add: emi_def py_pow_def py_div_def)
qed

lemma emi_covers_interest:
  assumes "0 \<le> loan_amt ps" "0 < rate_r ps" "0 < months_n ps" "emi ps = Inr e"
  shows "loan_amt ps * rate_r ps \<le> e"
proof -
  define q where "q = (1 + rate_r ps) ^ nat (months_n ps)"
  have q: "1 < q" unfolding q_def using assms by (intro one_less_power) simp_all
  have e: "e = loan_amt ps * rate_r ps * q / (q - 1)"
    using emi_value [OF assms(2,3)] assms(4) by (simp add: q_def)
  have "0 \<le> loan_amt ps * rate_r ps" using assms by simp
  moreover have "1 \<le> q / (q - 1)" using q by (simp add: field_simps)
  ultimately have "loan_amt ps * rate_r ps * 1 \<le> loan_amt ps * rate_r ps * (q / (q - 1))"
    by (rule mult_left_mono [rotated])
  then show ?thesis by (simp add: e)
qed

text \<open>
  Claim C5. For a loan principal \<open>P \<ge> 0\<close>, a monthly rate \<open>r > 0\<close> and a term of
  \<open>N > 0\<close> months, the EMI computation raises no error and returns
  \<open>P * r * (1 + r)^N / ((1 + r)^N - 1)\<close>. The witness is the script's default input:
  \<open>P = 6400000\<close>, \<open>r = 0.085 / 12\<close>, \<open>N = 240\<close>.
\<close>

theorem emi_annuity_formula:
  assumes "0 \<le> loan_amt ps" "0 < rate_r ps" "0 < months_n ps"
  shows "emi ps = Inr (loan_amt ps * rate_r ps * (1 + rate_r ps) ^ nat (months_n ps)
                        / ((1 + rate_r ps) ^ nat (months_n ps) - 1))"
  using assms by (simp add: emi_value)

theorem emi_annuity_formula_witness:
  "0 \<le> loan_amt default_params \<and> 0 < rate_r default_params \<and> 0 < months_n default_params \<and>
   loan_amt default_params = 6400000 \<and> rate_r default_params = 0.085 / 12 \<and>
   months_n default_params = 240 \<and>
   emi default_params
     = Inr (6400000 * (0.085 / 12) * (1 + 0.085 / 12) ^ 240 / ((1 + 0.085 / 12) ^ 240 - 1))"
proof -
  have l: "loan_amt default_params = 6400000" by (simp add: loan_amt_def default_params_def)
  have r: "rate_r default_params = 0.085 / 12" by (simp add: rate_r_def default_params_def)
  have n: "months_n default_params = 240" by (simp add: months_n_def default_params_def)
  have h: "0 \<le> loan_amt default_params" "0 < rate_r default_params" "0 < months_n default_params"
    by (simp_all add: l r n)
  from emi_annuity_formula [OF h] show ?thesis
    unfolding l r n using h by (simp del: power_numeral)
qed


lemma schedule_nth:
  assumes "i < exit_year ps * 12"
  shows "Year (schedule ps e ! i) = real (i + 1) / 12"
    and "Interest (schedule ps e ! i) + Principal (schedule ps e ! i) = e"
    and "Interest (schedule ps e ! i)
           = (if i = 0 then loan_amt ps else Balance (schedule ps e ! (i - 1))) * rate_r ps"
    and "Balance (schedule ps e ! i)
           = (if i = 0 then loan_amt ps else Balance (schedule ps e ! (i - 1)))
               - Principal (schedule ps e ! i)"
    and "Equity (schedule ps e ! i) + Balance (schedule ps e ! i) = price ps"
proof -
  define ms where "ms = [1 ..< exit_year ps * 12 + 1]"
  have len: "i < length ms" using assms by (simp add: ms_def)
  have nth: "ms ! i = i + 1" using assms unfolding ms_def by (subst nth_upt) simp_all
  have sch: "schedule ps e = schedule_loop (price ps) (rate_r ps) e (loan_amt ps) ms"
    by (simp only: schedule_def ms_def)
  show "Year (schedule ps e ! i) = real (i + 1) / 12"
    using schedule_loop_Year [OF len] by (simp only: sch nth)
  from schedule_loop_row [OF len, of "price ps" "rate_r ps" e "loan_amt ps"]
  show "Interest (schedule ps e ! i) + Principal (schedule ps e ! i) = e"
    and "Interest (schedule ps e ! i)
           = (if i = 0 then loan_amt ps else Balance (schedule ps e ! (i - 1))) * rate_r ps"
    and "Balance (schedule ps e ! i)
           = (if i = 0 then loan_amt ps else Balance (schedule ps e ! (i - 1)))
               - Principal (schedule ps e ! i)"
    and "Equity (schedule ps e ! i) + Balance (schedule ps e ! i) = price ps"
    unfolding sch by blast+
qed

lemma schedule_principal_nonneg:
  assumes "i < exit_year ps * 12" "0 \<le> rate_r ps" "loan_amt ps * rate_r ps \<le> e"
  shows "0 \<le> Principal (schedule ps e ! i)"
proof -
  define ms where "ms = [1 ..< exit_year ps * 12 + 1]"
  have len: "i < length ms" using assms by (simp add: ms_def)
  have sch: "schedule ps e = schedule_loop (price ps) (rate_r ps) e (loan_amt ps) ms"
    by (simp only: schedule_def ms_def)
  from schedule_loop_principal_nonneg [OF len assms(2,3)] show ?thesis by (simp only: sch)
qed

text \<open>
  Claim C6. The row of month \<open>m = i + 1\<close> of the schedule (for \<open>m\<close> in 1..horizon in
  months) has interest plus principal equal to the EMI, and its balance is the previous
  balance less its principal, the balance before month 1 being the loan amount.
\<close>

theorem schedule_row_identities:
  assumes "i < exit_year ps * 12"
  shows "Year (schedule ps e ! i) = real (i + 1) / 12 \<and>
         Interest (schedule ps e ! i) + Principal (schedule ps e ! i) = e \<and>
         Balance (schedule ps e ! i)
           = (if i = 0 then loan_amt ps else Balance (schedule ps e ! (i - 1)))
               - Principal (schedule ps e ! i)"
  using schedule_nth(1,2,4) [OF assms] by blast

theorem schedule_row_identities_witness:
  "(0::nat) < exit_year default_params * 12 \<and>
   (\<exists>e. emi default_params = Inr e \<and>
        Year (schedule default_params e ! 0) = real (0 + 1) / 12 \<and>
        Interest (schedule default_params e ! 0) + Principal (schedule default_params e ! 0) = e \<and>
        Balance (schedule default_params e ! 0)
          = loan_amt default_params - Principal (schedule default_params e ! 0))"
proof -
  have h: "(0::nat) < exit_year default_params * 12" by (simp add: default_params_def)
  have "0 < rate_r default_params" "0 < months_n default_params"
    by (simp_all add: rate_r_def months_n_def default_params_def)
  from emi_value [OF this] obtain e where e: "emi default_params = Inr e" by blast
  from schedule_row_identities [OF h, of e] h e show ?thesis by auto
qed

text \<open>
  Claim C7. In every row of the schedule, equity plus balance is the house price.
\<close>

theorem equity_plus_balance:
  assumes "i < length (schedule ps e)"
  shows "Equity (schedule ps e ! i) + Balance (schedule ps e ! i) = price ps"
  using assms by (simp add: length_schedule schedule_nth(5))

theorem equity_plus_balance_witness:
  "\<exists>e. emi default_params = Inr e \<and> 119 < length (schedule default_params e) \<and>
       Equity (schedule default_params e ! 119) + Balance (schedule default_params e ! 119)
         = 8000000"
proof -
  have "0 < rate_r default_params" "0 < months_n default_params"
    by (simp_all add: rate_r_def months_n_def default_params_def)
  from emi_value [OF this] obtain e where e: "emi default_params = Inr e" by blast
  have h: "119 < length (schedule default_params e)"
    by (simp add: length_schedule default_params_def)
  have p: "price default_params = 8000000" by (simp add: default_params_def)
  from equity_plus_balance [OF h] h e p show ?thesis by auto
qed

text \<open>
  Claim C10. For a loan principal \<open>\<ge> 0\<close>, a monthly rate \<open>> 0\<close> and a term \<open>> 0\<close>, the
  balance of every row of the schedule is at most the balance before it, over the whole
  horizon (also past the term of the loan).
\<close>

theorem balance_non_increasing:
  assumes "0 \<le> loan_amt ps" "0 < rate_r ps" "0 < months_n ps"
    and "emi ps = Inr e" and "i < length (schedule ps e)"
  shows "Balance (schedule ps e ! i)
           \<le> (if i = 0 then loan_amt ps else Balance (schedule ps e ! (i - 1)))"
proof -
  have i: "i < exit_year ps * 12" using assms(5) by (simp add: length_schedule)
  have "loan_amt ps * rate_r ps \<le> e" using assms(1-4) by (rule emi_covers_interest)
  with i assms(2) have "0 \<le> Principal (schedule ps e ! i)"
    by (intro schedule_principal_nonneg) simp_all
  with schedule_nth(4) [OF i, of e] show ?thesis by simp
qed

theorem balance_non_increasing_witness:
  "0 \<le> loan_amt default_params \<and> 0 < rate_r default_params \<and> 0 < months_n default_params \<and>
   (\<exists>e. emi default_params = Inr e \<and> 1 < length (schedule default_params e) \<and>
        Balance (schedule default_params e ! 1) \<le> Balance (schedule default_params e ! 0))"
proof -
  have h: "0 \<le> loan_amt default_params" "0 < rate_r default_params" "0 < months_n default_params"
    by (simp_all add: loan_amt_def rate_r_def months_n_def default_params_def)
  from emi_value [OF h(2,3)] obtain e where e: "emi default_params = Inr e" by blast
  have l: "1 < length (schedule default_params e)"
    by (simp add: length_schedule default_params_def)
  from balance_non_increasing [OF h e l] h e l show ?thesis by auto
qed

text \<open>
  Claim C9. For non-negative interest, principal, caps and tax rate, the tax saving is
  \<open>(min interest interest_cap + min principal principal_cap)\<close> times the tax rate (the
  script holds the rate in percent and divides by 100); it does not decrease when the tax
  rate grows, and it equals \<open>(interest_cap + principal_cap)\<close> times the rate once interest
  and principal reach their caps.
\<close>

theorem tax_saving_capped:
  assumes "0 \<le> interest" "0 \<le> princ" "0 \<le> interest_deduction ps"
    and "0 \<le> principal_deduction ps" "0 \<le> tax_rate ps"
  shows "tax_saving ps interest princ
           = (min interest (interest_deduction ps) + min princ (principal_deduction ps))
               * (tax_rate ps / 100) \<and>
         (\<forall>t. tax_rate ps \<le> t \<longrightarrow>
              tax_saving ps interest princ \<le> tax_saving (ps\<lparr>tax_rate := t\<rparr>) interest princ) \<and>
         (interest_deduction ps \<le> interest \<and> principal_deduction ps \<le> princ \<longrightarrow>
              tax_saving ps interest princ
                = (interest_deduction ps + principal_deduction ps) * (tax_rate ps / 100))"
proof -
  have c: "0 \<le> min interest (interest_deduction ps) + min princ (principal_deduction ps)"
    using assms by simp
  have "tax_saving ps interest princ \<le> tax_saving (ps\<lparr>tax_rate := t\<rparr>) interest princ"
    if "tax_rate ps \<le> t" for t
    using mult_left_mono [OF that c] by (simp add: tax_saving_def Let_def divide_right_mono)
  then show ?thesis by (simp add: tax_saving_def Let_def min_def)
qed

theorem tax_saving_capped_witness:
  "tax_saving default_params 500000 250000 = (200000 + 150000) * (30 / 100) \<and>
   tax_saving default_params 100000 50000 = (100000 + 50000) * (30 / 100) \<and>
   tax_saving default_params 100000 50000
     \<le> tax_saving (default_params\<lparr>tax_rate := 40\<rparr>) 100000 50000"
proof -
  have d: "0 \<le> interest_deduction default_params" "0 \<le> principal_deduction default_params"
    "0 \<le> tax_rate default_params"
    by (simp_all add: default_params_def)
  have a: "(0::real) \<le> 500000" "(0::real) \<le> 250000" "(0::real) \<le> 100000"
    "(0::real) \<le> 50000"
    by simp_all
  note big = tax_saving_capped [OF a(1) a(2) d]
  note small = tax_saving_capped [OF a(3) a(4) d]
  from small have "tax_rate default_params \<le> 40 \<longrightarrow>
      tax_saving default_params 100000 50000
        \<le> tax_saving (default_params\<lparr>tax_rate := 40\<rparr>) 100000 50000"
    by blast
  with big small show ?thesis by (simp add: default_params_def)
qed

subsection \<open>Cash flows\<close>

lemma cf_loop_eq:
  "cf_loop ps sched e rg ys (cb, cr) =
     (cb @ map (\<lambda>y. (if tax_saving_numpy ps (sched \<noteq> [])
                            (interest_year sched y) (principal_year sched y)
                       then NpFloat else PyFloat)
                      (- (e * 12 + price ps * (maintenance_pct ps / 100))
                       + tax_saving ps (interest_year sched y) (principal_year sched y))) ys,
      cr @ map (\<lambda>y. PyFloat (- (rent0 ps * (1 + rg / 100) ^ y * 12))) ys)"
  by (induction ys arbitrary: cb cr) (simp_all add: Let_def)

lemma num_val_add_float: "num_val (add_float x v) = num_val x + v"
  by (cases x) simp_all

lemma add_last_Inr:
  "xs \<noteq> [] \<Longrightarrow>
   add_last xs v = Inr (xs[length xs - 1 := add_float (xs ! (length xs - 1)) v])"
proof -
  assume ne: "xs \<noteq> []"
  then obtain ys z where xs: "xs = ys @ [z]" by (metis append_butlast_last_id)
  show ?thesis by (simp add: add_last_def xs)
qed

lemma upt_from_1_nth: "1 \<le> y \<Longrightarrow> y \<le> h \<Longrightarrow> [1 ..< h + 1] ! (y - 1) = y"
  by (subst nth_upt) simp_all

lemma cashflows_zero:
  "exit_year ps = 0 \<Longrightarrow> cashflows ps sched e hg rg = Inl IndexError"
  by (simp add: cashflows_def add_last_def Let_def)

lemma cashflows_pos:
  assumes "0 < exit_year ps"
  shows "\<exists>cb cr. cashflows ps sched e hg rg = Inr (cb, cr) \<and>
           length cb = exit_year ps + 1 \<and> length cr = exit_year ps \<and>
           (\<forall>k. 0 < k \<and> k \<le> exit_year ps \<longrightarrow>
              num_val (cb ! k) = - (e * 12 + price ps * (maintenance_pct ps / 100))
                       + tax_saving ps (interest_year sched k) (principal_year sched k)
                       + (if k = exit_year ps
                          then price ps * (1 + hg / 100) ^ exit_year ps
                               * (1 - sell_commission ps / 100)
                          else 0)) \<and>
           cb ! 0 = PyFloat (- (price ps * down_pct ps) - price ps * buy_commission ps / 100) \<and>
           (\<forall>k. 0 < k \<and> k \<le> exit_year ps \<longrightarrow>
              cr ! (k - 1) = PyFloat (- (rent0 ps * (1 + rg / 100) ^ k * 12)
                       + (if k = exit_year ps
                          then price ps * down_pct ps * (1 + inv_return ps / 100) ^ exit_year ps
                          else 0)))"
proof -
  define ys where "ys = [1 ..< exit_year ps + 1]"
  define rents where "rents = map (\<lambda>y. PyFloat (- (rent0 ps * (1 + rg / 100) ^ y * 12))) ys"
  define buys where
    "buys = PyFloat (- (price ps * down_pct ps) - price ps * buy_commission ps / 100)
     # map (\<lambda>y. (if tax_saving_numpy ps (sched \<noteq> [])
                        (interest_year sched y) (principal_year sched y)
                   then NpFloat else PyFloat)
                  (- (e * 12 + price ps * (maintenance_pct ps / 100))
                   + tax_saving ps (interest_year sched y) (principal_year sched y))) ys"
  define resale where
    "resale = price ps * (1 + hg / 100) ^ exit_year ps * (1 - sell_commission ps / 100)"
  define invest where
    "invest = price ps * down_pct ps * (1 + inv_return ps / 100) ^ exit_year ps"
  have len: "length ys = exit_year ps" by (simp add: ys_def)
  have nth: "ys ! (k - 1) = k" if "0 < k" "k \<le> exit_year ps" for k
    unfolding ys_def using that by (subst nth_upt) simp_all
  have loop: "cf_loop ps sched e rg ys
      ([PyFloat (- (price ps * down_pct ps) - price ps * buy_commission ps / 100)], [])
        = (buys, rents)"
    by (simp add: cf_loop_eq buys_def rents_def)
  have lb: "length buys = exit_year ps + 1" by (simp add: buys_def len)
  have lr: "length rents = exit_year ps" by (simp add: rents_def len)
  have nb: "buys \<noteq> []" by (simp add: buys_def)
  have nr: "rents \<noteq> []" using assms lr by auto
  define cb where "cb = buys[length buys - 1 := add_float (buys ! (length buys - 1)) resale]"
  define cr where "cr = rents[length rents - 1 := add_float (rents ! (length rents - 1)) invest]"
  have cash: "cashflows ps sched e hg rg = Inr (cb, cr)"
    unfolding cashflows_def Let_def ys_def [symmetric] loop
    by (simp add: add_last_Inr [OF nb] add_last_Inr [OF nr] cb_def cr_def resale_def invest_def)
  have "buys ! 0 = PyFloat (- (price ps * down_pct ps) - price ps * buy_commission ps / 100)"
    by (simp add: buys_def)
  then have b0: "cb ! 0
      = PyFloat (- (price ps * down_pct ps) - price ps * buy_commission ps / 100)"
    using assms by (simp add: cb_def lb nth_list_update)
  have bk: "num_val (cb ! k) = - (e * 12 + price ps * (maintenance_pct ps / 100))
                       + tax_saving ps (interest_year sched k) (principal_year sched k)
                       + (if k = exit_year ps then resale else 0)"
    if "0 < k" "k \<le> exit_year ps" for k
  proof -
    have "num_val (buys ! k) = - (e * 12 + price ps * (maintenance_pct ps / 100))
                       + tax_saving ps (interest_year sched k) (principal_year sched k)"
      using that nth [OF that] by (cases k) (simp_all add: buys_def len)
    then show ?thesis using that by (auto simp: cb_def lb nth_list_update num_val_add_float)
  qed
  have rk: "cr ! (k - 1) = PyFloat (- (rent0 ps * (1 + rg / 100) ^ k * 12)
                       + (if k = exit_year ps then invest else 0))"
    if "0 < k" "k \<le> exit_year ps" for k
  proof -
    have i: "k - 1 < length ys" using that by (simp add: len)
    have "rents ! (k - 1) = PyFloat (- (rent0 ps * (1 + rg / 100) ^ k * 12))"
      using i nth [OF that] by (simp add: rents_def)
    moreover have "(k - 1 = exit_year ps - 1) = (k = exit_year ps)"
      "(exit_year ps - 1 = k - 1) = (k = exit_year ps)"
      using that by auto
    ultimately show ?thesis using that by (auto simp: cr_def lr nth_list_update)
  qed
  show ?thesis
    using cash b0 bk rk by (auto simp: cb_def cr_def lb lr resale_def invest_def)
qed

text \<open>
  Claim C8. For every year \<open>y\<close> in 1..horizon, the entry that the loop appends to the
  rent-path list for year \<open>y\<close> (index \<open>y - 1\<close>) is the Python float
  \<open>- 12 * rent0 * (1 + rg/100)^y\<close>; in the list that \<open>compute_npv\<close> discounts, the same
  holds except that the last entry also carries the invested down payment. The witness
  is \<open>rent0 = 25000\<close>, \<open>rg = 5\<close>, horizon 1, where the entry is \<open>- 315000\<close>.
\<close>

theorem rent_cash_flow:
  assumes "1 \<le> y" "y \<le> exit_year ps"
  shows "snd (cf_loop ps sched e rg [1 ..< exit_year ps + 1]
               ([PyFloat (- (price ps * down_pct ps) - price ps * buy_commission ps / 100)], []))
           ! (y - 1)
           = PyFloat (- (12 * rent0 ps * (1 + rg / 100) ^ y)) \<and>
         (\<exists>cf_buy cf_rent. cashflows ps sched e hg rg = Inr (cf_buy, cf_rent) \<and>
            cf_rent ! (y - 1)
              = PyFloat (- (12 * rent0 ps * (1 + rg / 100) ^ y)
                + (if y = exit_year ps
                   then price ps * down_pct ps * (1 + inv_return ps / 100) ^ exit_year ps
                   else 0)))"
proof -
  define ys where "ys = [1 ..< exit_year ps + 1]"
  have i: "y - 1 < length ys" using assms by (simp add: ys_def)
  have nth: "ys ! (y - 1) = y" unfolding ys_def using assms by (rule upt_from_1_nth)
  have "snd (cf_loop ps sched e rg ys
               ([PyFloat (- (price ps * down_pct ps) - price ps * buy_commission ps / 100)], []))
          = map (\<lambda>y. PyFloat (- (rent0 ps * (1 + rg / 100) ^ y * 12))) ys"
    by (simp add: cf_loop_eq)
  then have a: "snd (cf_loop ps sched e rg ys
               ([PyFloat (- (price ps * down_pct ps) - price ps * buy_commission ps / 100)], []))
           ! (y - 1)
           = PyFloat (- (12 * rent0 ps * (1 + rg / 100) ^ y))"
    using i nth by simp
  have pos: "0 < exit_year ps" "0 < y" using assms by simp_all
  from cashflows_pos [OF pos(1), of sched e hg rg] pos(2) assms(2)
  obtain cf_buy cf_rent where "cashflows ps sched e hg rg = Inr (cf_buy, cf_rent)"
    and "cf_rent ! (y - 1) = PyFloat (- (rent0 ps * (1 + rg / 100) ^ y * 12)
                       + (if y = exit_year ps
                          then price ps * down_pct ps * (1 + inv_return ps / 100) ^ exit_year ps
                          else 0))"
    by blast
  then have b: "\<exists>cf_buy cf_rent. cashflows ps sched e hg rg = Inr (cf_buy, cf_rent) \<and>
            cf_rent ! (y - 1)
              = PyFloat (- (12 * rent0 ps * (1 + rg / 100) ^ y)
                + (if y = exit_year ps
                   then price ps * down_pct ps * (1 + inv_return ps / 100) ^ exit_year ps
                   else 0))"
    by (simp add: mult.commute mult.left_commute)
  from a b show ?thesis unfolding ys_def by (rule conjI)
qed

theorem rent_cash_flow_witness:
  "(1::nat) \<le> 1 \<and> 1 \<le> exit_year (default_params\<lparr>exit_year := 1\<rparr>) \<and>
   (\<forall>sched e. snd (cf_loop (default_params\<lparr>exit_year := 1\<rparr>) sched e 5 [1 ..< 1 + 1]
                     ([PyFloat (- (8000000 * (2 / 10)) - 8000000 * 1 / 100)], [])) ! (1 - 1)
                = PyFloat (- 315000))"
proof -
  have h: "(1::nat) \<le> 1" "1 \<le> exit_year (default_params\<lparr>exit_year := 1\<rparr>)" by simp_all
  have "snd (cf_loop (default_params\<lparr>exit_year := 1\<rparr>) sched e 5 [1 ..< 1 + 1]
                     ([PyFloat (- (8000000 * (2 / 10)) - 8000000 * 1 / 100)], [])) ! (1 - 1)
          = PyFloat (- 315000)"
    for sched e
    using rent_cash_flow [OF h, of sched e 5] by (simp add: default_params_def)
  with h show ?thesis by blast
qed

subsection \<open>Discounting\<close>

lemma num_div_nonzero: "d \<noteq> 0 \<Longrightarrow> num_div x d = Inr (Some (num_val x / d))"
  by (cases x) simp_all

lemma npv_sum_eq:
  "1 + rate / 100 \<noteq> 0 \<Longrightarrow>
   npv_sum rate i (Some a) cfs
     = Inr (Some (a + (\<Sum>k<length cfs. num_val (cfs ! k) / (1 + rate / 100) ^ (i + k))))"
proof (induction cfs arbitrary: i a)
  case Nil
  then show ?case by simp
next
  case (Cons cf cfs)
  then show ?case
    by (simp add: num_div_nonzero sum.lessThan_Suc_shift add.assoc del: sum.lessThan_Suc)
qed

lemma npv_eq:
  "1 + rate / 100 \<noteq> 0 \<Longrightarrow>
   npv rate cfs = Inr (Some (\<Sum>k<length cfs. num_val (cfs ! k) / (1 + rate / 100) ^ k))"
  by (simp add: npv_def npv_sum_eq)

lemma real_disc_base: "1 + (q - 1) * 100 / 100 = (q::real)"
  by (simp add: field_simps)

lemma real_disc_cases:
  "real_disc ps = (if 1 + inflation ps / 100 = 0 then Inl ZeroDivisionError
                   else Inr (((1 + disc ps / 100) / (1 + inflation ps / 100) - 1) * 100))"
  by (simp add: real_disc_def py_div_def)

lemma compute_npv_value:
  assumes "cashflows ps sched e hg rg = Inr (cb, cr)"
    and "1 + inflation ps / 100 \<noteq> 0" "1 + disc ps / 100 \<noteq> 0"
  shows "compute_npv ps sched e hg rg
           = Inr (Some (\<Sum>k<length cb. num_val (cb ! k)
                          / ((1 + disc ps / 100) / (1 + inflation ps / 100)) ^ k),
                  Some (\<Sum>k<length cr. num_val (cr ! k)
                          / ((1 + disc ps / 100) / (1 + inflation ps / 100)) ^ k))"
proof -
  define q where "q = (1 + disc ps / 100) / (1 + inflation ps / 100)"
  have q: "1 + (q - 1) * 100 / 100 = q" by (rule real_disc_base)
  have q0: "q \<noteq> 0" using assms(2,3) by (simp add: q_def)
  have nz: "1 + (q - 1) * 100 / 100 \<noteq> 0" unfolding q by (rule q0)
  have rd: "real_disc ps = Inr ((q - 1) * 100)"
    using assms(2) by (simp add: real_disc_cases q_def)
  have "npv ((q - 1) * 100) cfs = Inr (Some (\<Sum>k<length cfs. num_val (cfs ! k) / q ^ k))"
    for cfs
    using npv_eq [OF nz, of cfs] by (simp only: q)
  then show ?thesis
    unfolding q_def [symmetric] by (simp add: compute_npv_def assms(1) rd)
qed

text \<open>
  At a zero divisor the kind of the entry decides. With a horizon of one year and
  \<open>1 + disc/100 = 0\<close> the rent path has the single divisor \<open>0 ** 0 = 1\<close>, and the year-1
  entry of the buy path is divided by 0: when the tax saving is a \<open>numpy.float64\<close> the
  result is a non-finite NPV-buy beside a finite NPV-rent, otherwise ZeroDivisionError.
\<close>

lemma compute_npv_zero_divisor_one_year:
  assumes "exit_year ps = 1" "1 + inflation ps / 100 \<noteq> 0" "1 + disc ps / 100 = 0"
  shows "compute_npv ps sched e hg rg =
           (if tax_saving_numpy ps (sched \<noteq> []) (interest_year sched 1) (principal_year sched 1)
            then Inr (None, Some (- (rent0 ps * (1 + rg / 100) * 12)
                                  + price ps * down_pct ps * (1 + inv_return ps / 100)))
            else Inl ZeroDivisionError)"
  using assms
  by (simp add: compute_npv_def cashflows_def real_disc_cases npv_def add_last_def Let_def)

text \<open>
  Claim C2 (fails on the code). The rent-path list has no entry for year 0: it starts
  empty, so the rent of year \<open>y\<close> stands at index \<open>y - 1\<close> and is divided by
  \<open>(1 + real)^(y - 1)\<close>. With the default inputs and a horizon of 3 years (real rate
  \<open>1.08 / 1.05 - 1\<close>, so \<open>1 + real = 36 / 35\<close>) the list is
  \<open>[- 315000, - 330750, - 347287.5 + 2129600]\<close> and the rent of year 1 enters the NPV
  undiscounted, while the buy-path list does start with its year-0 entry.
\<close>

theorem rent_npv_year_one_undiscounted:
  "(\<exists>cf_buy. cashflows (default_params\<lparr>exit_year := 3\<rparr>) sched e 5 5
       = Inr (cf_buy, [PyFloat (- 315000), PyFloat (- 330750),
                       PyFloat (- 347287.5 + 2129600)]) \<and> length cf_buy = 4) \<and>
   (\<exists>b. full_pipeline (default_params\<lparr>exit_year := 3\<rparr>) 5 5
       = Inr (b, Some (- 315000 - 330750 / (36 / 35)
                       + (- 347287.5 + 2129600) / (36 / 35) ^ 2)))"
proof -
  have cash: "\<exists>cf_buy. cashflows (default_params\<lparr>exit_year := 3\<rparr>) s x 5 5
       = Inr (cf_buy, [PyFloat (- 315000), PyFloat (- 330750),
                       PyFloat (- 347287.5 + 2129600)]) \<and> length cf_buy = 4"
    for s x
    by (simp add: cashflows_def add_last_def default_params_def Let_def eval_nat_numeral)
  have "0 < rate_r (default_params\<lparr>exit_year := 3\<rparr>)"
    "0 < months_n (default_params\<lparr>exit_year := 3\<rparr>)"
    by (simp_all add: rate_r_def months_n_def default_params_def)
  from emi_value [OF this] obtain e0 where
    e0: "emi (default_params\<lparr>exit_year := 3\<rparr>) = Inr e0" by blast
  from cash [of "schedule (default_params\<lparr>exit_year := 3\<rparr>) e0" e0] obtain cf_buy where
    c: "cashflows (default_params\<lparr>exit_year := 3\<rparr>)
          (schedule (default_params\<lparr>exit_year := 3\<rparr>) e0) e0 5 5
        = Inr (cf_buy, [PyFloat (- 315000), PyFloat (- 330750),
                        PyFloat (- 347287.5 + 2129600)])"
    by blast
  have nz: "1 + inflation (default_params\<lparr>exit_year := 3\<rparr>) / 100 \<noteq> 0"
    "1 + disc (default_params\<lparr>exit_year := 3\<rparr>) / 100 \<noteq> 0"
    by (simp_all add: default_params_def)
  have q: "(1 + disc (default_params\<lparr>exit_year := 3\<rparr>) / 100)
      / (1 + inflation (default_params\<lparr>exit_year := 3\<rparr>) / 100) = 36 / 35"
    by (simp add: default_params_def)
  have "\<exists>b. full_pipeline (default_params\<lparr>exit_year := 3\<rparr>) 5 5
       = Inr (b, Some (- 315000 - 330750 / (36 / 35)
                       + (- 347287.5 + 2129600) / (36 / 35) ^ 2))"
    unfolding full_pipeline_def e0 sum.case compute_npv_value [OF c nz] q
    by (simp add: numeral_3_eq_3 power2_eq_square)
  with cash [of sched e] show ?thesis by blast
qed

subsection \<open>Failures\<close>

lemma compute_npv_inflation_zero:
  assumes "0 < exit_year ps" "1 + inflation ps / 100 = 0"
  shows "compute_npv ps sched e hg rg = Inl ZeroDivisionError"
proof -
  from cashflows_pos [OF assms(1), of sched e hg rg] obtain cb cr where
    "cashflows ps sched e hg rg = Inr (cb, cr)" by blast
  then show ?thesis using assms(2) by (simp add: compute_npv_def real_disc_cases)
qed

lemma compute_npv_finite:
  assumes "0 < exit_year ps" "1 + inflation ps / 100 \<noteq> 0" "1 + disc ps / 100 \<noteq> 0"
  shows "\<exists>b rn. compute_npv ps sched e hg rg = Inr (Some b, Some rn)"
proof -
  from cashflows_pos [OF assms(1), of sched e hg rg] obtain cb cr where
    "cashflows ps sched e hg rg = Inr (cb, cr)" by blast
  from compute_npv_value [OF this assms(2,3)] show ?thesis by blast
qed

lemma emi_tenure_zero: "tenure ps = 0 \<Longrightarrow> emi ps = Inl ZeroDivisionError"
  by (simp add: emi_def py_pow_def py_div_def months_n_def)

lemma emi_negative_term:
  assumes "months_n ps < 0" "1 < 1 + rate_r ps"
  shows "emi ps = Inr (loan_amt ps * rate_r ps * (1 / (1 + rate_r ps) ^ nat (- months_n ps))
                        / (1 / (1 + rate_r ps) ^ nat (- months_n ps) - 1))"
proof -
  have "0 < nat (- months_n ps)" using assms(1) by simp
  with assms(2) have "1 < (1 + rate_r ps) ^ nat (- months_n ps)" by (intro one_less_power)
  then have "1 / (1 + rate_r ps) ^ nat (- months_n ps) \<noteq> 1" by simp
  then show ?thesis using assms by (simp add: emi_def py_pow_def py_div_def)
qed

lemma emi_default_tenure_minus_1:
  "emi (default_params\<lparr>tenure := - 1\<rparr>)
     = Inr (6400000 * (0.085 / 12) * (1 / (1 + 0.085 / 12) ^ 12)
             / (1 / (1 + 0.085 / 12) ^ 12 - 1))"
proof -
  have l: "loan_amt (default_params\<lparr>tenure := - 1\<rparr>) = 6400000"
    by (simp add: loan_amt_def default_params_def)
  have r: "rate_r (default_params\<lparr>tenure := - 1\<rparr>) = 0.085 / 12"
    by (simp add: rate_r_def default_params_def)
  have n: "months_n (default_params\<lparr>tenure := - 1\<rparr>) < 0"
    and n': "nat (- months_n (default_params\<lparr>tenure := - 1\<rparr>)) = 12"
    by (simp_all add: months_n_def)
  have r1: "1 < 1 + rate_r (default_params\<lparr>tenure := - 1\<rparr>)" by (simp add: r)
  show ?thesis using emi_negative_term [OF n r1] unfolding l r n' .
qed

lemma full_pipeline_default_inflation_minus_200:
  "\<not> isl (full_pipeline (default_params\<lparr>inflation := - 200\<rparr>) 5 5)"
proof -
  have "0 < rate_r (default_params\<lparr>inflation := - 200\<rparr>)"
    "0 < months_n (default_params\<lparr>inflation := - 200\<rparr>)"
    by (simp_all add: rate_r_def months_n_def default_params_def)
  from emi_value [OF this] obtain e0 where
    e0: "emi (default_params\<lparr>inflation := - 200\<rparr>) = Inr e0" by blast
  have "\<exists>b rn. compute_npv (default_params\<lparr>inflation := - 200\<rparr>)
          (schedule (default_params\<lparr>inflation := - 200\<rparr>) e0) e0 5 5 = Inr (Some b, Some rn)"
    by (rule compute_npv_finite) (simp_all add: default_params_def)
  then show ?thesis by (auto simp: full_pipeline_def e0)
qed

text \<open>
  Claim C4 (amended). The script validates no input. Of the listed conditions, a tenure
  of 0 stops the EMI computation with ZeroDivisionError, and an inflation with
  \<open>1 + inflation/100 = 0\<close> stops \<open>compute_npv\<close> (for a horizon of at least one year) with
  ZeroDivisionError: each is raised by the division itself, and no result is returned.
  Other invalid inputs are not detected: with the default values otherwise, a tenure of
  \<open>-1\<close> year yields an EMI and an inflation of \<open>-200\<close> percent yields a pair of NPVs.
\<close>

theorem failures_without_validation:
  "(tenure ps = 0 \<longrightarrow> emi ps = Inl ZeroDivisionError) \<and>
   (0 < exit_year ps \<and> 1 + inflation ps / 100 = 0
      \<longrightarrow> compute_npv ps sched e hg rg = Inl ZeroDivisionError) \<and>
   \<not> isl (emi (default_params\<lparr>tenure := - 1\<rparr>)) \<and>
   \<not> isl (full_pipeline (default_params\<lparr>inflation := - 200\<rparr>) 5 5)"
  using emi_tenure_zero [of ps] compute_npv_inflation_zero [of ps sched e hg rg]
    full_pipeline_default_inflation_minus_200
  by (simp add: emi_default_tenure_minus_1)

theorem failures_without_validation_witness:
  "tenure (default_params\<lparr>tenure := 0\<rparr>) = 0 \<and>
   emi (default_params\<lparr>tenure := 0\<rparr>) = Inl ZeroDivisionError \<and>
   0 < exit_year (default_params\<lparr>inflation := - 100\<rparr>) \<and>
   1 + inflation (default_params\<lparr>inflation := - 100\<rparr>) / 100 = 0 \<and>
   (\<forall>sched e. compute_npv (default_params\<lparr>inflation := - 100\<rparr>) sched e 5 5
                = Inl ZeroDivisionError)"
proof -
  have t0: "emi (default_params\<lparr>tenure := 0\<rparr>) = Inl ZeroDivisionError"
    using failures_without_validation [of "default_params\<lparr>tenure := 0\<rparr>"] by simp
  have h: "0 < exit_year (default_params\<lparr>inflation := - 100\<rparr>)"
    "1 + inflation (default_params\<lparr>inflation := - 100\<rparr>) / 100 = 0"
    by (simp_all add: default_params_def)
  have i: "compute_npv (default_params\<lparr>inflation := - 100\<rparr>) sched e 5 5
                = Inl ZeroDivisionError" for sched e
    using failures_without_validation [of "default_params\<lparr>inflation := - 100\<rparr>" sched e 5 5] h
    by blast
  from t0 h i show ?thesis by simp
qed

text \<open>
  Claim C4 as stated fails: a tenure of \<open>-1\<close> year yields an EMI, and an inflation of
  \<open>-200\<close> percent (\<open>1 + inflation/100 = -1\<close>) yields a pair of NPVs.
\<close>

theorem invalid_inputs_not_rejected:
  "tenure (default_params\<lparr>tenure := - 1\<rparr>) \<le> 0 \<and>
   emi (default_params\<lparr>tenure := - 1\<rparr>)
     = Inr (6400000 * (0.085 / 12) * (1 / (1 + 0.085 / 12) ^ 12)
             / (1 / (1 + 0.085 / 12) ^ 12 - 1)) \<and>
   1 + inflation (default_params\<lparr>inflation := - 200\<rparr>) / 100 \<le> 0 \<and>
   \<not> isl (full_pipeline (default_params\<lparr>inflation := - 200\<rparr>) 5 5)"
proof -
  have t: "tenure (default_params\<lparr>tenure := - 1\<rparr>) \<le> 0" by simp
  have i: "1 + inflation (default_params\<lparr>inflation := - 200\<rparr>) / 100 \<le> 0" by simp
  from t emi_default_tenure_minus_1 i full_pipeline_default_inflation_minus_200
  show ?thesis by blast
qed

subsection \<open>Year windows\<close>

lemma filter_upt_interval: "filter (\<lambda>i. a \<le> i \<and> i < b) [0 ..< n] = [a ..< min b n]"
proof (induction n)
  case 0
  then show ?case by simp
next
  case (Suc n)
  consider "b \<le> n" | "n < b" "a \<le> n" | "n < b" "n < a" by linarith
  then show ?case
  proof cases
    case 1
    then have "min b n = b" "min b (Suc n) = b" by simp_all
    with Suc 1 show ?thesis by simp
  next
    case 2
    then have "min b n = n" "min b (Suc n) = Suc n" by simp_all
    with Suc 2 show ?thesis by simp
  next
    case 3
    then have "min b n = n" "min b (Suc n) = Suc n" by simp_all
    with Suc 3 show ?thesis by simp
  qed
qed

lemma year_rows_schedule:
  assumes "0 < y"
  shows "year_rows (schedule ps e) y
           = map ((!) (schedule ps e)) [12 * (y - 1) - 1 ..< min (12 * y) (exit_year ps * 12)]"
proof -
  define sched where "sched = schedule ps e"
  have len: "length sched = exit_year ps * 12" by (simp add: sched_def length_schedule)
  have "year_rows sched y
      = filter (\<lambda>rw. between (Year rw) (real y - 1) (real y))
          (map ((!) sched) [0 ..< length sched])"
    by (simp only: year_rows_def map_nth)
  also have "\<dots> = map ((!) sched)
      (filter (\<lambda>i. between (Year (sched ! i)) (real y - 1) (real y)) [0 ..< length sched])"
    by (simp add: filter_map comp_def)
  also have "filter (\<lambda>i. between (Year (sched ! i)) (real y - 1) (real y)) [0 ..< length sched]
      = filter (\<lambda>i. 12 * (y - 1) - 1 \<le> i \<and> i < 12 * y) [0 ..< length sched]"
  proof (rule filter_cong [OF refl])
    fix i assume "i \<in> set [0 ..< length sched]"
    then have i: "i < exit_year ps * 12" by (simp add: len)
    have yr: "Year (sched ! i) = real (i + 1) / 12"
      unfolding sched_def using i by (rule schedule_nth(1))
    have y1: "real y - 1 = real (y - 1)" using assms by (simp add: of_nat_diff)
    have lo: "(real (y - 1) \<le> real (i + 1) / 12) = (12 * (y - 1) \<le> i + 1)"
    proof -
      have "(real (y - 1) \<le> real (i + 1) / 12) = (real (y - 1) * 12 \<le> real (i + 1))"
        by (rule pos_le_divide_eq) simp
      moreover have "real (y - 1) * 12 = real (12 * (y - 1))" by simp
      moreover have "(real (12 * (y - 1)) \<le> real (i + 1)) = (12 * (y - 1) \<le> i + 1)"
        by (rule of_nat_le_iff)
      ultimately show ?thesis by (simp only:)
    qed
    have hi: "(real (i + 1) / 12 \<le> real y) = (i + 1 \<le> 12 * y)"
    proof -
      have "(real (i + 1) / 12 \<le> real y) = (real (i + 1) \<le> real y * 12)"
        by (rule pos_divide_le_eq) simp
      moreover have "real y * 12 = real (12 * y)" by simp
      moreover have "(real (i + 1) \<le> real (12 * y)) = (i + 1 \<le> 12 * y)"
        by (rule of_nat_le_iff)
      ultimately show ?thesis by (simp only:)
    qed
    have "between (Year (sched ! i)) (real y - 1) (real y)
        = (12 * (y - 1) \<le> i + 1 \<and> i + 1 \<le> 12 * y)"
      by (simp only: between_def yr y1 lo hi)
    also have "\<dots> = (12 * (y - 1) - 1 \<le> i \<and> i < 12 * y)" by arith
    finally show "between (Year (sched ! i)) (real y - 1) (real y)
        = (12 * (y - 1) - 1 \<le> i \<and> i < 12 * y)" .
  qed
  also have "\<dots> = [12 * (y - 1) - 1 ..< min (12 * y) (length sched)]"
    by (rule filter_upt_interval)
  finally show ?thesis by (simp only: sched_def [symmetric] len)
qed

text \<open>
  Claim C1 (fails on the code). The window of year \<open>y\<close> is closed at both ends, so for
  \<open>y \<ge> 2\<close> it holds the 13 rows of months \<open>12 (y - 1)\<close> to \<open>12 y\<close>. With the default
  inputs the row of month 12 (index 11, year-fraction 1) is in the windows of year 1 and
  of year 2, and its interest is counted in both annual aggregates.
\<close>

theorem boundary_month_in_two_year_windows:
  "year_rows (schedule default_params e) 1 = map ((!) (schedule default_params e)) [0 ..< 12] \<and>
   year_rows (schedule default_params e) 2 = map ((!) (schedule default_params e)) [11 ..< 24] \<and>
   Year (schedule default_params e ! 11) = 1 \<and>
   interest_year (schedule default_params e) 1 + interest_year (schedule default_params e) 2
     = (\<Sum>i<24. Interest (schedule default_params e ! i))
       + Interest (schedule default_params e ! 11)"
proof -
  have b1: "12 * (1 - 1) - 1 = (0::nat)"
    "min (12 * 1) (exit_year default_params * 12) = (12::nat)"
    by (simp_all add: default_params_def)
  have b2: "12 * (2 - 1) - 1 = (11::nat)"
    "min (12 * 2) (exit_year default_params * 12) = (24::nat)"
    by (simp_all add: default_params_def)
  have y1: "year_rows (schedule default_params e) 1
      = map ((!) (schedule default_params e)) [0 ..< 12]"
    using year_rows_schedule [of 1 default_params e] by (simp only: b1)
  have y2: "year_rows (schedule default_params e) 2
      = map ((!) (schedule default_params e)) [11 ..< 24]"
    using year_rows_schedule [of 2 default_params e] by (simp only: b2)
  have "(11::nat) < exit_year default_params * 12" by (simp add: default_params_def)
  from schedule_nth(1) [OF this, of e]
  have yr: "Year (schedule default_params e ! 11) = 1" by simp
  have i1: "interest_year (schedule default_params e) 1
      = (\<Sum>i = 0..<12. Interest (schedule default_params e ! i))"
    by (simp only: interest_year_def y1 map_map comp_def interv_sum_list_conv_sum_set_nat
        atLeastLessThan_upt)
  have i2: "interest_year (schedule default_params e) 2
      = (\<Sum>i = 11..<24. Interest (schedule default_params e ! i))"
    by (simp only: interest_year_def y2 map_map comp_def interv_sum_list_conv_sum_set_nat
        atLeastLessThan_upt)
  have split: "(\<Sum>i = 11..<24. f i) = f 11 + (\<Sum>i = 12..<24. f i)" for f :: "nat \<Rightarrow> real"
    by (simp add: sum.atLeast_Suc_lessThan)
  have join: "(\<Sum>i = 0..<12. f i) + (\<Sum>i = 12..<24. f i) = (\<Sum>i<24. f i)"
    for f :: "nat \<Rightarrow> real"
    unfolding lessThan_atLeast0 by (rule sum.atLeastLessThan_concat) simp_all
  have "interest_year (schedule default_params e) 1
        + interest_year (schedule default_params e) 2
      = (\<Sum>i = 0..<12. Interest (schedule default_params e ! i))
        + (Interest (schedule default_params e ! 11)
           + (\<Sum>i = 12..<24. Interest (schedule default_params e ! i)))"
    by (simp only: i1 i2 split)
  also have "\<dots> = (\<Sum>i<24. Interest (schedule default_params e ! i))
        + Interest (schedule default_params e ! 11)"
    by (simp only: join [symmetric] add.assoc add.commute add.left_commute)
  finally have dbl: "interest_year (schedule default_params e) 1
        + interest_year (schedule default_params e) 2
      = (\<Sum>i<24. Interest (schedule default_params e ! i))
        + Interest (schedule default_params e ! 11)" .
  from y1 y2 yr dbl show ?thesis by blast
qed


subsection \<open>Closed form of the rows and of the annual aggregates\<close>

lemma schedule_loop_closed:
  "i < length ms \<Longrightarrow>
   Principal (schedule_loop pr r e b ms ! i) = (e - b * r) * (1 + r) ^ i \<and>
   Interest (schedule_loop pr r e b ms ! i) = e - (e - b * r) * (1 + r) ^ i"
proof (induction ms arbitrary: b i)
  case Nil
  then show ?case by simp
next
  case (Cons m ms)
  show ?case
  proof (cases i)
    case 0
    then show ?thesis by (simp add: Let_def)
  next
    case (Suc j)
    with Cons.prems have j: "j < length ms" by simp
    have step: "e - (b - (e - b * r)) * r = (e - b * r) * (1 + r)" by (simp add: algebra_simps)
    from Cons.IH [OF j, of "b - (e - b * r)"] Suc show ?thesis
      by (simp add: Let_def step mult.assoc)
  qed
qed

lemma schedule_closed:
  assumes "i < exit_year ps * 12"
  shows "Principal (schedule ps e ! i) = (e - loan_amt ps * rate_r ps) * (1 + rate_r ps) ^ i"
    and "Interest (schedule ps e ! i) = e - (e - loan_amt ps * rate_r ps) * (1 + rate_r ps) ^ i"
proof -
  define ms where "ms = [1 ..< exit_year ps * 12 + 1]"
  have len: "i < length ms" using assms by (simp add: ms_def)
  have sch: "schedule ps e = schedule_loop (price ps) (rate_r ps) e (loan_amt ps) ms"
    by (simp only: schedule_def ms_def)
  from schedule_loop_closed [OF len, of "price ps" "rate_r ps" e "loan_amt ps"]
  show "Principal (schedule ps e ! i) = (e - loan_amt ps * rate_r ps) * (1 + rate_r ps) ^ i"
    and "Interest (schedule ps e ! i) = e - (e - loan_amt ps * rate_r ps) * (1 + rate_r ps) ^ i"
    unfolding sch by blast+
qed

lemma interest_year_schedule:
  assumes "0 < y"
  shows "interest_year (schedule ps e) y
           = (\<Sum>i = 12 * (y - 1) - 1 ..< min (12 * y) (exit_year ps * 12).
                 e - (e - loan_amt ps * rate_r ps) * (1 + rate_r ps) ^ i)"
proof -
  have "interest_year (schedule ps e) y
      = (\<Sum>i = 12 * (y - 1) - 1 ..< min (12 * y) (exit_year ps * 12).
            Interest (schedule ps e ! i))"
    by (simp only: interest_year_def year_rows_schedule [OF assms] map_map comp_def
        interv_sum_list_conv_sum_set_nat atLeastLessThan_upt)
  also have "\<dots> = (\<Sum>i = 12 * (y - 1) - 1 ..< min (12 * y) (exit_year ps * 12).
                 e - (e - loan_amt ps * rate_r ps) * (1 + rate_r ps) ^ i)"
    by (rule sum.cong [OF refl]) (simp add: schedule_closed(2))
  finally show ?thesis .
qed

lemma principal_year_schedule:
  assumes "0 < y"
  shows "principal_year (schedule ps e) y
           = (\<Sum>i = 12 * (y - 1) - 1 ..< min (12 * y) (exit_year ps * 12).
                 (e - loan_amt ps * rate_r ps) * (1 + rate_r ps) ^ i)"
proof -
  have "principal_year (schedule ps e) y
      = (\<Sum>i = 12 * (y - 1) - 1 ..< min (12 * y) (exit_year ps * 12).
            Principal (schedule ps e ! i))"
    by (simp only: principal_year_def year_rows_schedule [OF assms] map_map comp_def
        interv_sum_list_conv_sum_set_nat atLeastLessThan_upt)
  also have "\<dots> = (\<Sum>i = 12 * (y - 1) - 1 ..< min (12 * y) (exit_year ps * 12).
                 (e - loan_amt ps * rate_r ps) * (1 + rate_r ps) ^ i)"
    by (rule sum.cong [OF refl]) (simp add: schedule_closed(1))
  finally show ?thesis .
qed

lemma emi_margin:
  assumes "0 < loan_amt ps" "0 < rate_r ps" "0 < months_n ps" "emi ps = Inr e"
  shows "0 < e - loan_amt ps * rate_r ps"
    and "i \<le> nat (months_n ps) \<Longrightarrow>
         0 \<le> e - (e - loan_amt ps * rate_r ps) * (1 + rate_r ps) ^ i"
proof -
  define q where "q = 1 + rate_r ps"
  define Q where "Q = q ^ nat (months_n ps)"
  define c where "c = loan_amt ps * rate_r ps"
  have q1: "1 < q" using assms(2) by (simp add: q_def)
  have Q1: "1 < Q" unfolding Q_def using q1 assms(3) by (intro one_less_power) simp_all
  have c0: "0 < c" using assms(1,2) by (simp add: c_def)
  have e: "e = c * Q / (Q - 1)"
    using emi_value [OF assms(2,3)] assms(4) by (simp add: Q_def q_def c_def)
  have d: "e - c = c / (Q - 1)" using Q1 by (simp add: e field_simps)
  show "0 < e - loan_amt ps * rate_r ps"
    unfolding c_def [symmetric] d using c0 Q1 by simp
  show "0 \<le> e - (e - loan_amt ps * rate_r ps) * (1 + rate_r ps) ^ i"
    if "i \<le> nat (months_n ps)"
  proof -
    have "q ^ i \<le> Q" unfolding Q_def using q1 that by (intro power_increasing) simp_all
    have "e - (e - c) * q ^ i = c * Q / (Q - 1) - c / (Q - 1) * q ^ i"
      by (simp only: d) (simp only: e)
    also have "\<dots> = c * (Q - q ^ i) / (Q - 1)"
      by (simp add: right_diff_distrib diff_divide_distrib)
    finally have "e - (e - c) * q ^ i = c * (Q - q ^ i) / (Q - 1)" .
    moreover have "0 \<le> c * (Q - q ^ i) / (Q - 1)"
      using c0 Q1 \<open>q ^ i \<le> Q\<close> by simp
    ultimately show ?thesis by (simp add: c_def q_def)
  qed
qed

subsection \<open>The sweep over the holding period\<close>

lemma tax_saving_mono:
  assumes "0 \<le> tax_rate ps" "i \<le> i'" "p \<le> p'"
  shows "tax_saving ps i p \<le> tax_saving ps i' p'"
proof -
  have "min i (interest_deduction ps) + min p (principal_deduction ps)
      \<le> min i' (interest_deduction ps) + min p' (principal_deduction ps)"
    using assms(2,3) by (intro add_mono) (simp_all add: min_def)
  from mult_right_mono [OF this assms(1)] show ?thesis
    by (simp add: tax_saving_def Let_def divide_right_mono)
qed

lemma exit_year_update_loan:
  "loan_amt (ps\<lparr>exit_year := h\<rparr>) = loan_amt ps"
  "rate_r (ps\<lparr>exit_year := h\<rparr>) = rate_r ps"
  "months_n (ps\<lparr>exit_year := h\<rparr>) = months_n ps"
  by (simp_all add: loan_amt_def rate_r_def months_n_def)

lemma exit_year_update_emi: "emi (ps\<lparr>exit_year := h\<rparr>) = emi ps"
  unfolding emi_def exit_year_update_loan by (rule refl)

lemma cashflows_rent_independent:
  assumes "cashflows ps sched e hg rg = Inr (cb, cr)"
    and "cashflows ps sched' e' hg' rg = Inr (cb', cr')"
  shows "cr = cr'"
  using assms
  by (auto simp: cashflows_def Let_def cf_loop_eq add_last_def split: if_splits)

lemma compute_npv_buy_less:
  assumes pos: "0 < exit_year ps"
    and q: "0 < 1 + inflation ps / 100" "0 < 1 + disc ps / 100"
    and le: "\<And>k. 0 < k \<Longrightarrow> k \<le> exit_year ps \<Longrightarrow>
              tax_saving ps (interest_year s k) (principal_year s k)
                \<le> tax_saving ps (interest_year s' k) (principal_year s' k)"
    and less: "tax_saving ps (interest_year s (exit_year ps)) (principal_year s (exit_year ps))
                < tax_saving ps (interest_year s' (exit_year ps)) (principal_year s' (exit_year ps))"
  shows "\<exists>b b' rn. compute_npv ps s e hg rg = Inr (Some b, rn) \<and>
                    compute_npv ps s' e hg rg = Inr (Some b', rn) \<and> b < b'"
proof -
  define q where "q = (1 + disc ps / 100) / (1 + inflation ps / 100)"
  have q0: "0 < q" using q by (simp add: q_def)
  from cashflows_pos [OF pos, of s e hg rg] obtain cb cr where
    c: "cashflows ps s e hg rg = Inr (cb, cr)" and lb: "length cb = exit_year ps + 1"
    and cbk: "\<And>k. 0 < k \<Longrightarrow> k \<le> exit_year ps \<Longrightarrow>
              num_val (cb ! k) = - (e * 12 + price ps * (maintenance_pct ps / 100))
                       + tax_saving ps (interest_year s k) (principal_year s k)
                       + (if k = exit_year ps
                          then price ps * (1 + hg / 100) ^ exit_year ps
                               * (1 - sell_commission ps / 100)
                          else 0)"
    and cb0: "cb ! 0
      = PyFloat (- (price ps * down_pct ps) - price ps * buy_commission ps / 100)"
    by blast
  from cashflows_pos [OF pos, of s' e hg rg] obtain cb' cr' where
    c': "cashflows ps s' e hg rg = Inr (cb', cr')" and lb': "length cb' = exit_year ps + 1"
    and cbk': "\<And>k. 0 < k \<Longrightarrow> k \<le> exit_year ps \<Longrightarrow>
              num_val (cb' ! k) = - (e * 12 + price ps * (maintenance_pct ps / 100))
                       + tax_saving ps (interest_year s' k) (principal_year s' k)
                       + (if k = exit_year ps
                          then price ps * (1 + hg / 100) ^ exit_year ps
                               * (1 - sell_commission ps / 100)
                          else 0)"
    and cb0': "cb' ! 0
      = PyFloat (- (price ps * down_pct ps) - price ps * buy_commission ps / 100)"
    by blast
  have cr: "cr' = cr" using c' c by (rule cashflows_rent_independent)
  have nz: "1 + inflation ps / 100 \<noteq> 0" "1 + disc ps / 100 \<noteq> 0" using q by simp_all
  note v = compute_npv_value [OF c nz] compute_npv_value [OF c' nz]
  have pt: "num_val (cb ! k) \<le> num_val (cb' ! k)" if "k < exit_year ps + 1" for k
  proof (cases k)
    case 0
    then show ?thesis by (simp add: cb0 cb0')
  next
    case (Suc j)
    then have k: "0 < k" "k \<le> exit_year ps" using that by simp_all
    from le [OF k] show ?thesis by (simp add: cbk [OF k] cbk' [OF k])
  qed
  have st: "num_val (cb ! exit_year ps) < num_val (cb' ! exit_year ps)"
    using less by (simp add: cbk [OF pos] cbk' [OF pos])
  have "(\<Sum>k<exit_year ps + 1. num_val (cb ! k) / q ^ k)
      < (\<Sum>k<exit_year ps + 1. num_val (cb' ! k) / q ^ k)"
  proof (rule sum_strict_mono_ex1)
    show "finite {..<exit_year ps + 1}" by simp
    show "\<forall>k\<in>{..<exit_year ps + 1}.
            num_val (cb ! k) / q ^ k \<le> num_val (cb' ! k) / q ^ k"
      using pt q0 by (simp add: divide_right_mono)
    show "\<exists>k\<in>{..<exit_year ps + 1}.
            num_val (cb ! k) / q ^ k < num_val (cb' ! k) / q ^ k"
    proof
      show "exit_year ps \<in> {..<exit_year ps + 1}" by simp
      show "num_val (cb ! exit_year ps) / q ^ exit_year ps
          < num_val (cb' ! exit_year ps) / q ^ exit_year ps"
        using st q0 by (simp add: divide_strict_right_mono)
    qed
  qed
  then show ?thesis using v unfolding q_def [symmetric] lb lb' cr by blast
qed

lemma sweep_loop_map:
  assumes "\<And>y. y \<in> set ys \<Longrightarrow>
      compute_npv (ps\<lparr>exit_year := y\<rparr>) sched e (house_growth ps) (rent_growth ps)
        = Inr (fb y, fr y)"
  shows "sweep_loop ps sched e ys (bv, rv) = Inr (bv @ map fb ys, rv @ map fr ys)"
  using assms by (induction ys arbitrary: bv rv) simp_all

lemma year_aggregates_mono:
  assumes "0 < loan_amt ps" "0 < rate_r ps" "0 < months_n ps" "emi ps = Inr e"
    and "0 < y" "h1 \<le> h2" "12 * h2 \<le> nat (months_n ps)"
  shows "interest_year (schedule (ps\<lparr>exit_year := h1\<rparr>) e) y
           \<le> interest_year (schedule (ps\<lparr>exit_year := h2\<rparr>) e) y"
    and "principal_year (schedule (ps\<lparr>exit_year := h1\<rparr>) e) y
           \<le> principal_year (schedule (ps\<lparr>exit_year := h2\<rparr>) e) y"
proof -
  define lo where "lo = 12 * (y - 1) - 1"
  define A where "A = {lo ..< min (12 * y) (h1 * 12)}"
  define B where "B = {lo ..< min (12 * y) (h2 * 12)}"
  have sub: "A \<subseteq> B" using assms(6) by (auto simp: A_def B_def)
  have fin: "finite B" by (simp add: B_def)
  have inB: "i \<le> nat (months_n ps)" if "i \<in> B - A" for i
    using that assms(7) by (auto simp: B_def)
  have d: "0 < e - loan_amt ps * rate_r ps" using assms(1-4) by (rule emi_margin(1))
  have "(\<Sum>i\<in>A. e - (e - loan_amt ps * rate_r ps) * (1 + rate_r ps) ^ i)
      \<le> (\<Sum>i\<in>B. e - (e - loan_amt ps * rate_r ps) * (1 + rate_r ps) ^ i)"
    using fin sub
  proof (rule sum_mono2)
    fix i assume "i \<in> B - A"
    then have "i \<le> nat (months_n ps)" by (rule inB)
    then show "0 \<le> e - (e - loan_amt ps * rate_r ps) * (1 + rate_r ps) ^ i"
      by (rule emi_margin(2) [OF assms(1-4)])
  qed
  then show "interest_year (schedule (ps\<lparr>exit_year := h1\<rparr>) e) y
           \<le> interest_year (schedule (ps\<lparr>exit_year := h2\<rparr>) e) y"
    by (simp add: interest_year_schedule [OF assms(5)] exit_year_update_loan A_def B_def lo_def)
  have "(\<Sum>i\<in>A. (e - loan_amt ps * rate_r ps) * (1 + rate_r ps) ^ i)
      \<le> (\<Sum>i\<in>B. (e - loan_amt ps * rate_r ps) * (1 + rate_r ps) ^ i)"
    using fin sub
  proof (rule sum_mono2)
    fix i assume "i \<in> B - A"
    show "0 \<le> (e - loan_amt ps * rate_r ps) * (1 + rate_r ps) ^ i"
      using d assms(2) by simp
  qed
  then show "principal_year (schedule (ps\<lparr>exit_year := h1\<rparr>) e) y
           \<le> principal_year (schedule (ps\<lparr>exit_year := h2\<rparr>) e) y"
    by (simp add: principal_year_schedule [OF assms(5)] exit_year_update_loan A_def B_def lo_def)
qed

text \<open>
  Claim C3 (fails on the code). The sweep reassigns \<open>exit_year\<close> but reads the schedule
  that was built before it, from the slider's value. With the default inputs (slider at
  10, a schedule of 120 rows) the window of year 12 is empty at holding period 12, so the
  tax saving of that year is 0, while the schedule recomputed to 12 years gives a
  positive one. The sweep's NPV-buy for holding period 12 (index 9 of the sweep, which
  starts at 3) is finite and strictly below the NPV-buy of the pipeline run afresh for 12
  years; the NPV-rent, which does not read the schedule, agrees.
\<close>

theorem sweep_reads_stale_schedule:
  "\<exists>bv rv bs b rn.
     sweep default_params = Inr (bv, rv) \<and> length bv = 23 \<and> length rv = 23 \<and>
     full_pipeline (default_params\<lparr>exit_year := 12\<rparr>)
       (house_growth default_params) (rent_growth default_params) = Inr (Some b, rn) \<and>
     bv ! 9 = Some bs \<and> bs < b \<and> rv ! 9 = rn"
proof -
  define ps12 where "ps12 = default_params\<lparr>exit_year := 12\<rparr>"
  define hg where "hg = house_growth default_params"
  define rg where "rg = rent_growth default_params"
  have l: "0 < loan_amt default_params" and r: "0 < rate_r default_params"
    and n: "months_n default_params = 240"
    by (simp_all add: loan_amt_def rate_r_def months_n_def default_params_def)
  have n0: "0 < months_n default_params" by (simp add: n)
  from emi_value [OF r n0] obtain e where e: "emi default_params = Inr e" by blast
  have e12: "emi ps12 = Inr e" by (simp add: ps12_def exit_year_update_emi e)
  define stale where "stale = schedule default_params e"
  define fresh where "fresh = schedule ps12 e"
  have d10: "default_params\<lparr>exit_year := 10\<rparr> = default_params"
    by (simp add: default_params_def)
  have iy: "interest_year stale k \<le> interest_year fresh k" if "0 < k" for k
    using year_aggregates_mono(1) [OF l r n0 e that, of 10 12]
    by (simp add: n d10 stale_def fresh_def ps12_def)
  have py: "principal_year stale k \<le> principal_year fresh k" if "0 < k" for k
    using year_aggregates_mono(2) [OF l r n0 e that, of 10 12]
    by (simp add: n d10 stale_def fresh_def ps12_def)
  have tr: "0 \<le> tax_rate ps12" by (simp add: ps12_def default_params_def)
  have le: "tax_saving ps12 (interest_year stale k) (principal_year stale k)
      \<le> tax_saving ps12 (interest_year fresh k) (principal_year fresh k)"
    if "0 < k" "k \<le> exit_year ps12" for k
    using tr iy [OF that(1)] py [OF that(1)] by (rule tax_saving_mono)
  have x12: "exit_year ps12 = 12" by (simp add: ps12_def)
  have is0: "interest_year stale 12 = 0"
    unfolding stale_def by (subst interest_year_schedule) (simp_all add: default_params_def)
  have ps0: "principal_year stale 12 = 0"
    unfolding stale_def by (subst principal_year_schedule) (simp_all add: default_params_def)
  have t0: "tax_saving ps12 (interest_year stale 12) (principal_year stale 12) = 0"
    by (simp add: is0 ps0 tax_saving_def ps12_def default_params_def)
  have d: "0 < e - loan_amt default_params * rate_r default_params"
    using l r n0 e by (rule emi_margin(1))
  have pf: "principal_year fresh 12
      = (\<Sum>i = 131..<144. (e - loan_amt default_params * rate_r default_params)
            * (1 + rate_r default_params) ^ i)"
    unfolding fresh_def ps12_def
    by (subst principal_year_schedule) (simp_all add: exit_year_update_loan)
  have pf0: "0 < principal_year fresh 12"
    unfolding pf
  proof (rule sum_pos)
    show "finite {131..<144::nat}" by simp
    show "{131..<144::nat} \<noteq> {}" by simp
    fix i :: nat
    show "0 < (e - loan_amt default_params * rate_r default_params)
            * (1 + rate_r default_params) ^ i"
      using d r by simp
  qed
  have if0: "0 \<le> interest_year fresh 12" using iy [of 12] by (simp add: is0)
  have t1: "0 < tax_saving ps12 (interest_year fresh 12) (principal_year fresh 12)"
  proof -
    have "0 \<le> min (interest_year fresh 12) 200000" using if0 by simp
    moreover have "0 < min (principal_year fresh 12) 150000" using pf0 by simp
    ultimately have "0 < min (interest_year fresh 12) 200000 + min (principal_year fresh 12) 150000"
      by (rule add_nonneg_pos)
    then show ?thesis by (simp add: tax_saving_def ps12_def default_params_def)
  qed
  have less: "tax_saving ps12 (interest_year stale (exit_year ps12))
                (principal_year stale (exit_year ps12))
              < tax_saving ps12 (interest_year fresh (exit_year ps12))
                  (principal_year fresh (exit_year ps12))"
    unfolding x12 using t0 t1 by simp
  have pos: "0 < exit_year ps12" by (simp add: x12)
  have q: "0 < 1 + inflation ps12 / 100" "0 < 1 + disc ps12 / 100"
    by (simp_all add: ps12_def default_params_def)
  from compute_npv_buy_less [OF pos q le less, of e hg rg] obtain bs bf rn where
    cs: "compute_npv ps12 stale e hg rg = Inr (Some bs, rn)"
    and cf: "compute_npv ps12 fresh e hg rg = Inr (Some bf, rn)" and lt: "bs < bf"
    by blast
  have full: "full_pipeline ps12 hg rg = Inr (Some bf, rn)"
    by (simp add: full_pipeline_def e12 cf fresh_def [symmetric])
  have ok: "\<exists>b rn. compute_npv (default_params\<lparr>exit_year := y\<rparr>) stale e hg rg = Inr (b, rn)"
    if "y \<in> set [3 ..< 26]" for y
  proof -
    from that have "3 \<le> y" by (simp only: set_upt atLeastLessThan_iff)
    then have "0 < exit_year (default_params\<lparr>exit_year := y\<rparr>)" by simp
    moreover have "1 + inflation (default_params\<lparr>exit_year := y\<rparr>) / 100 \<noteq> 0"
      "1 + disc (default_params\<lparr>exit_year := y\<rparr>) / 100 \<noteq> 0"
      by (simp_all add: default_params_def)
    ultimately show ?thesis
      using compute_npv_finite [of "default_params\<lparr>exit_year := y\<rparr>" stale e hg rg] by blast
  qed
  define fb where
    "fb y = fst (projr (compute_npv (default_params\<lparr>exit_year := y\<rparr>) stale e hg rg))" for y
  define fr where
    "fr y = snd (projr (compute_npv (default_params\<lparr>exit_year := y\<rparr>) stale e hg rg))" for y
  have each: "compute_npv (default_params\<lparr>exit_year := y\<rparr>) stale e
        (house_growth default_params) (rent_growth default_params) = Inr (fb y, fr y)"
    if "y \<in> set [3 ..< 26]" for y
    using ok [OF that] by (auto simp: fb_def fr_def hg_def rg_def)
  have sw: "sweep default_params = Inr (map fb [3 ..< 26], map fr [3 ..< 26])"
    using sweep_loop_map [of "[3 ..< 26]" default_params stale e fb fr "[]" "[]", OF each]
    by (simp add: sweep_def e stale_def [symmetric])
  have nth: "[3 ..< 26] ! 9 = (12::nat)" by (subst nth_upt) simp_all
  have "compute_npv (default_params\<lparr>exit_year := 12\<rparr>) stale e hg rg = Inr (fb 12, fr 12)"
    using each [of 12] by (simp add: hg_def rg_def)
  with cs have f12: "fb 12 = Some bs" "fr 12 = rn" by (simp_all add: ps12_def)
  have "map fb [3 ..< 26] ! 9 = Some bs" "map fr [3 ..< 26] ! 9 = rn"
    using nth f12 by (simp_all add: nth_map)
  moreover have "length (map fb [3 ..< 26]) = 23" "length (map fr [3 ..< 26]) = 23" by simp_all
  ultimately show ?thesis
    using sw full lt unfolding ps12_def hg_def rg_def by blast
qed

end
